theory Spec2Isabelle
  imports Main "HOL-Library.Sublist"
begin

section \<open>The record-import routes of gearjot-poc\<close>

text \<open>
  The repository holds two import routes, both exporting a handler \<open>GET\<close>:
  \<open>src/unnamed/part_000\<close> (classification by the naming convention on the action key, with
  the display-name fallback) and \<open>src/unnamed/part_001\<close> (classification by the literal
  key \<open>get-objects\<close>, no display-name fallback). Their cursor loop and their
  check-then-insert loop are the same text; they are embedded once, and each handler is
  embedded on its own as \<open>GET_part_000\<close> and \<open>GET_part_001\<close>.
\<close>

subsection \<open>JavaScript values\<close>

text \<open>
  A value of type \<open>string | null | undefined\<close> is a \<open>string option\<close>. JavaScript tests
  such a value for truthiness: \<open>null\<close>, \<open>undefined\<close> and the empty string are falsy.
\<close>

definition truthy :: "string option \<Rightarrow> bool" where
  "truthy v = (case v of None \<Rightarrow> False | Some s \<Rightarrow> s \<noteq> [])"

text \<open>\<open>a || b\<close> on such values.\<close>

definition js_or :: "string option \<Rightarrow> string option \<Rightarrow> string option" where
  "js_or a b = (if truthy a then a else b)"

text \<open>\<open>s.startsWith(p)\<close>.\<close>

definition startsWith :: "string \<Rightarrow> string \<Rightarrow> bool" where
  "startsWith s p = (take (length p) s = p)"

text \<open>\<open>s.substring(n)\<close> for \<open>n\<close> within the string or beyond it.\<close>

definition substring :: "string \<Rightarrow> nat \<Rightarrow> string" where
  "substring s n = drop n s"

text \<open>\<open>s.replace(pat, rep)\<close> with a string pattern: the first occurrence only.\<close>

fun replace :: "string \<Rightarrow> string \<Rightarrow> string \<Rightarrow> string" where
  "replace [] pat rep = (if pat = [] then rep else [])"
| "replace (c # cs) pat rep =
     (if take (length pat) (c # cs) = pat then rep @ drop (length pat) (c # cs)
      else c # replace cs pat rep)"

subsection \<open>Constants (\<open>@/lib/constants\<close>)\<close>

record record_action =
  key :: string
  action_name :: string
  action_type :: string

definition RECORD_ACTIONS :: "record_action list" where
  "RECORD_ACTIONS =
     [\<lparr>key = ''get-equipment'', action_name = ''Equipment'', action_type = ''default''\<rparr>]"

subsection \<open>Records, the store and the effects\<close>

text \<open>
  \<open>IRecord\<close>: the external identifier, the display name, the open mapping of fields, the
  owning tenant and the logical type. A record as the external action returns it may lack
  any of them. The fields \<open>id\<close> and \<open>fields\<close> are named \<open>id_field\<close> and \<open>record_fields\<close> here.
\<close>

record IRecord =
  id_field :: "string option"
  name :: "string option"
  record_fields :: "(string \<times> string) list"
  customerId :: "string option"
  recordType :: "string option"

text \<open>The filter of \<open>Record.findOne\<close>: \<open>id\<close>, \<open>customerId\<close>, \<open>recordType\<close>.\<close>

type_synonym record_key = "string option \<times> string option \<times> string option"

definition key_of :: "IRecord \<Rightarrow> record_key" where
  "key_of r = (id_field r, customerId r, recordType r)"

text \<open>
  Modelled from the spec: the persistent store (\<open>@/models/record\<close>, a Mongoose model that is
  not among the sources). The spec gives it two operations: point lookup by
  (\<open>id\<close>, \<open>customerId\<close>, \<open>recordType\<close>) and insertion of a normalized record. The store is the
  list of its documents in insertion order; a lookup returns the first document whose three
  fields equal the filter's; an insertion appends. Neither fails.
\<close>

definition findOne :: "IRecord list \<Rightarrow> record_key \<Rightarrow> IRecord option" where
  "findOne db q = find (\<lambda>d. key_of d = q) db"

definition create :: "IRecord list \<Rightarrow> IRecord \<Rightarrow> IRecord list" where
  "create db r = db @ [r]"

text \<open>
  The calls the handler makes on its collaborators, in the order it makes them.
  \<open>RunAction c a k cur\<close> is
  \<open>client.connection(c).action(a, {instanceKey: k}).run({cursor: cur})\<close>.
\<close>

datatype effect =
    ConnectToDatabase
  | GetIntegrationClient string
  | ConnectionsFind
  | RunAction string string "string option" "string option"
  | FindOne record_key
  | Create IRecord

text \<open>
  What one call of the external action gives: it throws an error with a message (a network
  failure, a malformed response), or it returns \<open>result.output\<close> with its \<open>records\<close>
  (possibly undefined) and its \<open>cursor\<close> (possibly null, undefined or empty).
\<close>

datatype action_result =
    Throws string
  | Output "IRecord list option" "string option"

text \<open>The body and the status of a \<open>NextResponse.json\<close>; the status is 200 when none is given.\<close>

datatype body =
    Error string
  | ErrorDetails string string
  | NoSuccess string
  | Success nat nat nat

datatype response = Json body nat

text \<open>\<open>result.output.records || []\<close>.\<close>

definition records_of :: "IRecord list option \<Rightarrow> IRecord list" where
  "records_of recs = (case recs of None \<Rightarrow> [] | Some rs \<Rightarrow> rs)"

text \<open>The handler's local variables together with the store and the calls made so far.\<close>

record import_state =
  store :: "IRecord list"
  trace :: "effect list"
  allRecords :: "IRecord list"
  newRecordsCount :: nat
  existingRecordsCount :: nat

definition initial_state :: "IRecord list \<Rightarrow> import_state" where
  "initial_state db =
     \<lparr>store = db, trace = [], allRecords = [], newRecordsCount = 0, existingRecordsCount = 0\<rparr>"

definition call :: "effect \<Rightarrow> import_state \<Rightarrow> import_state" where
  "call e st = st\<lparr>trace := trace st @ [e]\<rparr>"

subsection \<open>The check-then-insert loop\<close>

text \<open>
  \<open>for (const record of recordsToSave)\<close>: look the record up by its key under the
  authenticated tenant; count it as existing when found, otherwise insert it and count it
  as new.
\<close>

fun save_records :: "string \<Rightarrow> IRecord list \<Rightarrow> import_state \<Rightarrow> import_state" where
  "save_records cust [] st = st"
| "save_records cust (r # rs) st =
     (let q = (id_field r, Some cust, recordType r);
          st1 = call (FindOne q) st
      in case findOne (store st1) q of
           Some existingRecord \<Rightarrow>
             save_records cust rs
               (st1\<lparr>existingRecordsCount := existingRecordsCount st1 + 1\<rparr>)
         | None \<Rightarrow>
             save_records cust rs
               ((call (Create r) st1)
                  \<lparr>store := create (store st1) r,
                   newRecordsCount := newRecordsCount st1 + 1\<rparr>))"

subsection \<open>The cursor loop\<close>

datatype completion = Thrown string | Completed

text \<open>
  \<open>while (hasMoreRecords)\<close>. The external source is given by the results of its successive
  calls. The loop has no bound of its own: when the source has no further result to give,
  the call does not return and neither does the handler, which is the value \<open>None\<close>.
  \<open>toSave\<close> is the function mapped over a page to build \<open>recordsToSave\<close>.
\<close>

fun import_loop ::
  "(IRecord \<Rightarrow> IRecord) \<Rightarrow> string \<Rightarrow> string \<Rightarrow> string option \<Rightarrow> string \<Rightarrow>
   action_result list \<Rightarrow> string option \<Rightarrow> import_state \<Rightarrow> (completion \<times> import_state) option"
where
  "import_loop toSave conn actionKey instanceKey cust [] currentCursor st = None"
| "import_loop toSave conn actionKey instanceKey cust (res # rest) currentCursor st =
     (let st1 = call (RunAction conn actionKey (js_or instanceKey None) currentCursor) st
      in case res of
           Throws msg \<Rightarrow> Some (Thrown msg, st1)
         | Output recs next_cursor \<Rightarrow>
             (let records = records_of recs;
                  st2 = st1\<lparr>allRecords := allRecords st1 @ records\<rparr>;
                  st3 = (if length records > 0
                         then save_records cust (map toSave records) st2
                         else st2)
              in if truthy next_cursor
                 then import_loop toSave conn actionKey instanceKey cust rest next_cursor st3
                 else Some (Completed, st3)))"

text \<open>
  The state at the end of one iteration of the loop body whose call returned
  \<open>Output recs next_cursor\<close>; the loop is restated in terms of it below
  (\<open>import_loop_Output\<close>).
\<close>

definition page_state ::
  "(IRecord \<Rightarrow> IRecord) \<Rightarrow> string \<Rightarrow> string \<Rightarrow> string option \<Rightarrow> string \<Rightarrow>
   IRecord list option \<Rightarrow> string option \<Rightarrow> import_state \<Rightarrow> import_state" where
  "page_state toSave conn actionKey instanceKey cust recs currentCursor st =
     (let st1 = call (RunAction conn actionKey (js_or instanceKey None) currentCursor) st;
          st2 = st1\<lparr>allRecords := allRecords st1 @ records_of recs\<rparr>
      in if length (records_of recs) > 0
         then save_records cust (map toSave (records_of recs)) st2
         else st2)"

text \<open>The external action calls among the calls made.\<close>

fun is_RunAction :: "effect \<Rightarrow> bool" where
  "is_RunAction (RunAction c a k cur) = True"
| "is_RunAction e = False"

subsection \<open>The handlers\<close>

text \<open>
  A handler takes what it reads from the request, the \<open>items\<close> of the connection
  directory's answer, the results of the successive calls of the external action, and the
  store. It gives the response together with the final state (the store and the calls
  made), or \<open>None\<close> when it does not return. Of the collaborators only the external action
  call is taken to throw; \<open>catch\<close> then answers with status 500, and what was inserted
  before stays inserted.

  What the handler reads from the request: \<open>getAuthFromRequest(request).customerId\<close> and
  the search parameters \<open>action\<close> and \<open>instanceKey\<close>.
\<close>

record request =
  auth_customerId :: "string option"
  param_action :: "string option"
  param_instanceKey :: "string option"

text \<open>\<open>connectionsResponse.items?.[0]\<close>; a connection is given by its id.\<close>

definition firstConnection :: "string list option \<Rightarrow> string option" where
  "firstConnection items =
     (case items of None \<Rightarrow> None | Some [] \<Rightarrow> None | Some (c # cs) \<Rightarrow> Some c)"

text \<open>The three calls that both handlers make before the loop.\<close>

definition connect :: "string \<Rightarrow> import_state \<Rightarrow> import_state" where
  "connect cust st =
     call ConnectionsFind (call (GetIntegrationClient cust) (call ConnectToDatabase st))"

subsubsection \<open>\<open>src/unnamed/part_000\<close>\<close>

definition defaultFormTypes :: "string list" where
  "defaultFormTypes =
     map (\<lambda>action. replace (key action) ''get-'' [])
       (filter (\<lambda>action. action_type action = ''default'') RECORD_ACTIONS)"

definition formId :: "string \<Rightarrow> string option" where
  "formId actionKey =
     (if startsWith actionKey ''get-'' then Some (substring actionKey 4) else None)"

text \<open>\<open>formId && !defaultFormTypes.includes(formId)\<close>, as a truth value.\<close>

definition isCustomForm :: "string \<Rightarrow> bool" where
  "isCustomForm actionKey =
     (case formId actionKey of
        None \<Rightarrow> False
      | Some f \<Rightarrow> f \<noteq> [] \<and> f \<notin> set defaultFormTypes)"

definition recordsToSave_000 ::
  "string \<Rightarrow> string \<Rightarrow> string option \<Rightarrow> IRecord \<Rightarrow> IRecord" where
  "recordsToSave_000 cust actionKey instanceKey record =
     record\<lparr>name := js_or (name record) (js_or (id_field record) (Some ''Unnamed Record'')),
            customerId := Some cust,
            recordType := (if isCustomForm actionKey then instanceKey else Some actionKey)\<rparr>"

definition GET_part_000 ::
  "request \<Rightarrow> string list option \<Rightarrow> action_result list \<Rightarrow> IRecord list \<Rightarrow>
   (response \<times> import_state) option" where
  "GET_part_000 req items script db =
     (let st0 = initial_state db in
      case auth_customerId req of
        None \<Rightarrow> Some (Json (Error ''Unauthorized'') 401, st0)
      | Some cust \<Rightarrow>
          if cust = [] then Some (Json (Error ''Unauthorized'') 401, st0)
          else
            (let instanceKey = param_instanceKey req in
             case param_action req of
               None \<Rightarrow> Some (Json (Error ''Action key is required'') 400, st0)
             | Some actionKey \<Rightarrow>
                 if actionKey = [] then Some (Json (Error ''Action key is required'') 400, st0)
                 else if isCustomForm actionKey \<and> \<not> truthy instanceKey
                 then Some (Json (Error ''Instance key is required for custom forms'') 400, st0)
                 else
                   (let st1 = connect cust st0 in
                    case firstConnection items of
                      None \<Rightarrow> Some (Json (NoSuccess ''No connection found'') 200, st1)
                    | Some conn \<Rightarrow>
                        (case import_loop (recordsToSave_000 cust actionKey instanceKey)
                                conn actionKey instanceKey cust script None st1 of
                           None \<Rightarrow> None
                         | Some (Thrown msg, st) \<Rightarrow>
                             Some (Json (ErrorDetails ''Internal Server Error'' msg) 500, st)
                         | Some (Completed, st) \<Rightarrow>
                             Some (Json (Success (length (allRecords st))
                                           (newRecordsCount st) (existingRecordsCount st)) 200,
                                   st)))))"

subsubsection \<open>\<open>src/unnamed/part_001\<close>\<close>

definition recordsToSave_001 ::
  "string \<Rightarrow> string \<Rightarrow> string option \<Rightarrow> IRecord \<Rightarrow> IRecord" where
  "recordsToSave_001 cust actionKey instanceKey record =
     record\<lparr>customerId := Some cust,
            recordType := (if actionKey = ''get-objects'' then instanceKey else Some actionKey)\<rparr>"

definition GET_part_001 ::
  "request \<Rightarrow> string list option \<Rightarrow> action_result list \<Rightarrow> IRecord list \<Rightarrow>
   (response \<times> import_state) option" where
  "GET_part_001 req items script db =
     (let st0 = initial_state db in
      case auth_customerId req of
        None \<Rightarrow> Some (Json (Error ''Unauthorized'') 401, st0)
      | Some cust \<Rightarrow>
          if cust = [] then Some (Json (Error ''Unauthorized'') 401, st0)
          else
            (let instanceKey = param_instanceKey req in
             case param_action req of
               None \<Rightarrow> Some (Json (Error ''Action key is required'') 400, st0)
             | Some actionKey \<Rightarrow>
                 if actionKey = [] then Some (Json (Error ''Action key is required'') 400, st0)
                 else if actionKey = ''get-objects'' \<and> \<not> truthy instanceKey
                 then Some (Json (Error ''Instance key is required for get-objects action'') 400,
                            st0)
                 else
                   (let st1 = connect cust st0 in
                    case firstConnection items of
                      None \<Rightarrow> Some (Json (NoSuccess ''No connection found'') 200, st1)
                    | Some conn \<Rightarrow>
                        (case import_loop (recordsToSave_001 cust actionKey instanceKey)
                                conn actionKey instanceKey cust script None st1 of
                           None \<Rightarrow> None
                         | Some (Thrown msg, st) \<Rightarrow>
                             Some (Json (Error ''Internal Server Error'') 500, st)
                         | Some (Completed, st) \<Rightarrow>
                             Some (Json (Success (length (allRecords st))
                                           (newRecordsCount st) (existingRecordsCount st)) 200,
                                   st)))))"

subsection \<open>Example data\<close>

text \<open>
  The scenario of the spec: the action \<open>get-equipment\<close>, two pages of two and one records,
  for the tenant \<open>acme\<close> with one connection.
\<close>

definition raw_record :: "string \<Rightarrow> string option \<Rightarrow> IRecord" where
  "raw_record i n =
     \<lparr>id_field = Some i, name = n, record_fields = [], customerId = None, recordType = None\<rparr>"

definition stored_record :: "string \<Rightarrow> string \<Rightarrow> string \<Rightarrow> string \<Rightarrow> IRecord" where
  "stored_record i n cust t =
     \<lparr>id_field = Some i, name = Some n, record_fields = [], customerId = Some cust,
      recordType = Some t\<rparr>"

definition equipment_request :: request where
  "equipment_request =
     \<lparr>auth_customerId = Some ''acme'', param_action = Some ''get-equipment'',
      param_instanceKey = None\<rparr>"

definition objects_request :: request where
  "objects_request =
     \<lparr>auth_customerId = Some ''acme'', param_action = Some ''get-objects'',
      param_instanceKey = Some ''widgets''\<rparr>"

definition equipment_pages :: "action_result list" where
  "equipment_pages =
     [Output (Some [raw_record ''e1'' (Some ''Pump''), raw_record ''e2'' None]) (Some ''c1''),
      Output (Some [raw_record ''e3'' (Some ''Valve'')]) None]"

definition equipment_store :: "IRecord list" where
  "equipment_store =
     [stored_record ''e1'' ''Pump'' ''acme'' ''get-equipment'',
      stored_record ''e2'' ''e2'' ''acme'' ''get-equipment'',
      stored_record ''e3'' ''Valve'' ''acme'' ''get-equipment'']"

section \<open>Properties\<close>

subsection \<open>Evaluation of the example\<close>

lemmas eval_defs = GET_part_000_def GET_part_001_def initial_state_def connect_def call_def
  firstConnection_def isCustomForm_def formId_def startsWith_def substring_def
  defaultFormTypes_def RECORD_ACTIONS_def recordsToSave_000_def recordsToSave_001_def
  truthy_def js_or_def records_of_def findOne_def create_def key_of_def Let_def
  raw_record_def stored_record_def equipment_request_def objects_request_def equipment_pages_def
  equipment_store_def

lemma equipment_first_run:
  "\<exists>st. GET_part_000 equipment_request (Some [''conn-1'']) equipment_pages [] =
          Some (Json (Success 3 3 0) 200, st) \<and> store st = equipment_store"
  by (simp add: eval_defs)

subsection \<open>The check-then-insert loop\<close>

lemma findOne_None_iff: "findOne db q = None \<longleftrightarrow> q \<notin> key_of ` set db"
  by (auto simp: findOne_def find_None_iff)

lemma save_records_allRecords: "allRecords (save_records cust rs st) = allRecords st"
  by (induction rs arbitrary: st) (auto simp: Let_def call_def split: option.splits)

lemma save_records_counts:
  "newRecordsCount (save_records cust rs st) + existingRecordsCount (save_records cust rs st)
     = newRecordsCount st + existingRecordsCount st + length rs"
  by (induction rs arbitrary: st) (auto simp: Let_def call_def split: option.splits)

lemma save_records_added:
  "\<exists>added. store (save_records cust rs st) = store st @ added \<and> set added \<subseteq> set rs"
proof (induction rs arbitrary: st)
  case Nil
  then show ?case by simp
next
  case (Cons r rs)
  show ?case
  proof (cases "findOne (store st) (id_field r, Some cust, recordType r)")
    case None
    let ?st = "(call (Create r) (call (FindOne (id_field r, Some cust, recordType r)) st))
                 \<lparr>store := create (store st) r, newRecordsCount := newRecordsCount st + 1\<rparr>"
    from Cons.IH [of ?st] obtain added where
      "store (save_records cust rs ?st) = store ?st @ added" "set added \<subseteq> set rs" by blast
    with None show ?thesis
      by (intro exI [of _ "r # added"]) (auto simp: Let_def call_def create_def)
  next
    case (Some d)
    let ?st = "(call (FindOne (id_field r, Some cust, recordType r)) st)
                 \<lparr>existingRecordsCount := existingRecordsCount st + 1\<rparr>"
    from Cons.IH [of ?st] obtain added where
      "store (save_records cust rs ?st) = store ?st @ added" "set added \<subseteq> set rs" by blast
    with Some show ?thesis
      by (intro exI [of _ added]) (auto simp: Let_def call_def)
  qed
qed

lemma save_records_distinct:
  "\<forall>r\<in>set rs. customerId r = Some cust \<Longrightarrow> distinct (map key_of (store st)) \<Longrightarrow>
   distinct (map key_of (store (save_records cust rs st)))"
proof (induction rs arbitrary: st)
  case Nil
  then show ?case by simp
next
  case (Cons r rs)
  then show ?case
    by (auto simp: Let_def call_def create_def findOne_None_iff key_of_def split: option.splits)
qed

lemma save_records_keys_mono:
  "key_of ` set (store st) \<subseteq> key_of ` set (store (save_records cust rs st))"
  using save_records_added [of cust rs st] by auto

lemma save_records_covers:
  "\<forall>r\<in>set rs. customerId r = Some cust \<Longrightarrow>
   key_of ` set rs \<subseteq> key_of ` set (store (save_records cust rs st))"
proof (induction rs arbitrary: st)
  case Nil
  then show ?case by simp
next
  case (Cons r rs)
  let ?q = "(id_field r, Some cust, recordType r)"
  from Cons.prems have q: "key_of r = ?q" by (simp add: key_of_def)
  from Cons.prems have rest: "\<forall>r\<in>set rs. customerId r = Some cust" by simp
  show ?case
  proof (cases "findOne (store st) ?q")
    case None
    let ?st = "(call (Create r) (call (FindOne ?q) st))
                 \<lparr>store := create (store st) r, newRecordsCount := newRecordsCount st + 1\<rparr>"
    have step: "save_records cust (r # rs) st = save_records cust rs ?st"
      using None by (simp add: Let_def call_def)
    have "key_of r \<in> key_of ` set (store ?st)" by (simp add: create_def)
    then have "key_of r \<in> key_of ` set (store (save_records cust rs ?st))"
      using save_records_keys_mono [of ?st cust rs] by blast
    with Cons.IH [OF rest, of ?st] step show ?thesis by simp
  next
    case (Some d)
    let ?st = "(call (FindOne ?q) st)\<lparr>existingRecordsCount := existingRecordsCount st + 1\<rparr>"
    have step: "save_records cust (r # rs) st = save_records cust rs ?st"
      using Some by (simp add: Let_def call_def)
    from Some have "?q \<in> key_of ` set (store st)"
      using findOne_None_iff [of "store st" ?q] by simp
    then have "key_of r \<in> key_of ` set (store ?st)" using q by (simp add: call_def)
    then have "key_of r \<in> key_of ` set (store (save_records cust rs ?st))"
      using save_records_keys_mono [of ?st cust rs] by blast
    with Cons.IH [OF rest, of ?st] step show ?thesis by simp
  qed
qed

lemma save_records_existing:
  "\<forall>r\<in>set rs. customerId r = Some cust \<Longrightarrow> key_of ` set rs \<subseteq> key_of ` set (store st) \<Longrightarrow>
   store (save_records cust rs st) = store st \<and>
   newRecordsCount (save_records cust rs st) = newRecordsCount st \<and>
   existingRecordsCount (save_records cust rs st) = existingRecordsCount st + length rs"
proof (induction rs arbitrary: st)
  case Nil
  then show ?case by simp
next
  case (Cons r rs)
  let ?q = "(id_field r, Some cust, recordType r)"
  from Cons.prems have q: "key_of r = ?q" by (simp add: key_of_def)
  with Cons.prems have "?q \<in> key_of ` set (store st)" by auto
  then obtain d where d: "findOne (store st) ?q = Some d"
    using findOne_None_iff [of "store st" ?q] by (cases "findOne (store st) ?q") auto
  let ?st = "(call (FindOne ?q) st)\<lparr>existingRecordsCount := existingRecordsCount st + 1\<rparr>"
  have step: "save_records cust (r # rs) st = save_records cust rs ?st"
    using d by (simp add: Let_def call_def)
  have "store ?st = store st" by (simp add: call_def)
  with Cons.prems Cons.IH [of ?st] step show ?case by (simp add: call_def)
qed

lemma save_records_runs:
  "filter is_RunAction (trace (save_records cust rs st)) = filter is_RunAction (trace st)"
  by (induction rs arbitrary: st) (auto simp: Let_def call_def split: option.splits)




subsection \<open>The cursor loop\<close>

lemma import_loop_Throws:
  "import_loop f conn a ik cust (Throws msg # rest) cur st =
     Some (Thrown msg, call (RunAction conn a (js_or ik None) cur) st)"
  by simp

lemma import_loop_Output:
  "import_loop f conn a ik cust (Output recs nxt # rest) cur st =
     (if truthy nxt then import_loop f conn a ik cust rest nxt (page_state f conn a ik cust recs cur st)
      else Some (Completed, page_state f conn a ik cust recs cur st))"
  by (simp add: page_state_def Let_def)

lemma page_state_added:
  "\<exists>added. store (page_state f conn a ik cust recs cur st) = store st @ added \<and> set added \<subseteq> range f"
proof (cases "length (records_of recs) > 0")
  case True
  let ?st2 = "(call (RunAction conn a (js_or ik None) cur) st)
                \<lparr>allRecords := allRecords st @ records_of recs\<rparr>"
  from save_records_added [of cust "map f (records_of recs)" ?st2]
  obtain added where "store (save_records cust (map f (records_of recs)) ?st2) = store ?st2 @ added"
    "set added \<subseteq> set (map f (records_of recs))" by blast
  with True show ?thesis
    by (intro exI [of _ added]) (auto simp: page_state_def Let_def call_def)
next
  case False
  then show ?thesis by (simp add: page_state_def Let_def call_def)
qed

lemma page_state_distinct:
  assumes "\<And>r. customerId (f r) = Some cust" "distinct (map key_of (store st))"
  shows "distinct (map key_of (store (page_state f conn a ik cust recs cur st)))"
  using assms by (auto simp: page_state_def Let_def call_def intro!: save_records_distinct)

lemma page_state_counted:
  assumes "length (allRecords st) = newRecordsCount st + existingRecordsCount st"
  shows "length (allRecords (page_state f conn a ik cust recs cur st)) =
         newRecordsCount (page_state f conn a ik cust recs cur st) +
         existingRecordsCount (page_state f conn a ik cust recs cur st)"
proof -
  let ?st2 = "(call (RunAction conn a (js_or ik None) cur) st)
                \<lparr>allRecords := allRecords st @ records_of recs\<rparr>"
  show ?thesis
    using assms save_records_counts [of cust "map f (records_of recs)" ?st2]
    by (auto simp: page_state_def Let_def call_def save_records_allRecords)
qed

lemma page_state_allRecords:
  "allRecords (page_state f conn a ik cust recs cur st) = allRecords st @ records_of recs"
  by (simp add: page_state_def Let_def call_def save_records_allRecords)

lemma page_state_runs:
  "filter is_RunAction (trace (page_state f conn a ik cust recs cur st)) =
   filter is_RunAction (trace st) @ [RunAction conn a (js_or ik None) cur]"
  by (simp add: page_state_def Let_def call_def save_records_runs)

lemma page_state_covers:
  assumes "\<And>r. customerId (f r) = Some cust"
  shows "key_of ` f ` set (records_of recs) \<subseteq>
         key_of ` set (store (page_state f conn a ik cust recs cur st))"
proof (cases "length (records_of recs) > 0")
  case True
  let ?st2 = "(call (RunAction conn a (js_or ik None) cur) st)
                \<lparr>allRecords := allRecords st @ records_of recs\<rparr>"
  have "\<forall>r\<in>set (map f (records_of recs)). customerId r = Some cust" using assms by simp
  from save_records_covers [OF this, of ?st2] True show ?thesis
    by (simp add: page_state_def Let_def call_def)
next
  case False
  then show ?thesis by simp
qed

lemma page_state_existing:
  assumes "\<And>r. customerId (f r) = Some cust"
    and "key_of ` f ` set (records_of recs) \<subseteq> key_of ` set (store st)"
  shows "store (page_state f conn a ik cust recs cur st) = store st \<and>
         newRecordsCount (page_state f conn a ik cust recs cur st) = newRecordsCount st \<and>
         existingRecordsCount (page_state f conn a ik cust recs cur st) =
           existingRecordsCount st + length (records_of recs)"
proof (cases "length (records_of recs) > 0")
  case True
  let ?st2 = "(call (RunAction conn a (js_or ik None) cur) st)
                \<lparr>allRecords := allRecords st @ records_of recs\<rparr>"
  have a: "\<forall>r\<in>set (map f (records_of recs)). customerId r = Some cust" using assms by simp
  have b: "key_of ` set (map f (records_of recs)) \<subseteq> key_of ` set (store ?st2)"
    using assms(2) by (simp add: call_def)
  from save_records_existing [OF a b] True show ?thesis
    by (simp add: page_state_def Let_def call_def)
next
  case False
  then show ?thesis by (simp add: page_state_def Let_def call_def)
qed

lemma import_loop_added:
  "import_loop f conn a ik cust script cur st = Some (c, st') \<Longrightarrow>
   \<exists>added. store st' = store st @ added \<and> set added \<subseteq> range f"
proof (induction script arbitrary: cur st)
  case Nil
  then show ?case by simp
next
  case (Cons res rest)
  show ?case
  proof (cases res)
    case (Throws msg)
    with Cons.prems show ?thesis by (auto simp: call_def)
  next
    case (Output recs nxt)
    let ?p = "page_state f conn a ik cust recs cur st"
    obtain a1 where a1: "store ?p = store st @ a1" "set a1 \<subseteq> range f"
      using page_state_added [of f conn a ik cust recs cur st] by blast
    show ?thesis
    proof (cases "truthy nxt")
      case True
      with Cons.prems Output have "import_loop f conn a ik cust rest nxt ?p = Some (c, st')"
        by (simp add: import_loop_Output del: import_loop.simps)
      from Cons.IH [OF this] obtain a2 where "store st' = store ?p @ a2" "set a2 \<subseteq> range f"
        by blast
      with a1 show ?thesis by (intro exI [of _ "a1 @ a2"]) auto
    next
      case False
      with Cons.prems Output have "st' = ?p"
        by (simp add: import_loop_Output del: import_loop.simps)
      with a1 show ?thesis by blast
    qed
  qed
qed

lemma import_loop_distinct:
  assumes f: "\<And>r. customerId (f r) = Some cust"
  shows "import_loop f conn a ik cust script cur st = Some (c, st') \<Longrightarrow>
         distinct (map key_of (store st)) \<Longrightarrow> distinct (map key_of (store st'))"
proof (induction script arbitrary: cur st)
  case Nil
  then show ?case by simp
next
  case (Cons res rest)
  show ?case
  proof (cases res)
    case (Throws msg)
    with Cons.prems show ?thesis by (auto simp: call_def)
  next
    case (Output recs nxt)
    let ?p = "page_state f conn a ik cust recs cur st"
    have d: "distinct (map key_of (store ?p))"
      using f Cons.prems(2) by (rule page_state_distinct)
    show ?thesis
    proof (cases "truthy nxt")
      case True
      with Cons.prems Output have "import_loop f conn a ik cust rest nxt ?p = Some (c, st')"
        by (simp add: import_loop_Output del: import_loop.simps)
      from Cons.IH [OF this d] show ?thesis .
    next
      case False
      with Cons.prems Output have "st' = ?p"
        by (simp add: import_loop_Output del: import_loop.simps)
      with d show ?thesis by simp
    qed
  qed
qed

lemma import_loop_counted:
  "import_loop f conn a ik cust script cur st = Some (Completed, st') \<Longrightarrow>
   length (allRecords st) = newRecordsCount st + existingRecordsCount st \<Longrightarrow>
   length (allRecords st') = newRecordsCount st' + existingRecordsCount st'"
proof (induction script arbitrary: cur st)
  case Nil
  then show ?case by simp
next
  case (Cons res rest)
  show ?case
  proof (cases res)
    case (Throws msg)
    with Cons.prems show ?thesis by simp
  next
    case (Output recs nxt)
    let ?p = "page_state f conn a ik cust recs cur st"
    have d: "length (allRecords ?p) = newRecordsCount ?p + existingRecordsCount ?p"
      using Cons.prems(2) by (rule page_state_counted)
    show ?thesis
    proof (cases "truthy nxt")
      case True
      with Cons.prems Output have "import_loop f conn a ik cust rest nxt ?p = Some (Completed, st')"
        by (simp add: import_loop_Output del: import_loop.simps)
      from Cons.IH [OF this d] show ?thesis .
    next
      case False
      with Cons.prems Output have "st' = ?p"
        by (simp add: import_loop_Output del: import_loop.simps)
      with d show ?thesis by simp
    qed
  qed
qed

lemma import_loop_keys_mono:
  assumes "import_loop f conn a ik cust script cur st = Some (c, st')"
  shows "key_of ` set (store st) \<subseteq> key_of ` set (store st')"
proof -
  from import_loop_added [OF assms] obtain added where "store st' = store st @ added" by blast
  then show ?thesis by auto
qed

lemma import_loop_again:
  assumes f: "\<And>r. customerId (f r) = Some cust"
  shows "import_loop f conn a ik cust script cur stA = Some (Completed, stA') \<Longrightarrow>
         key_of ` set (store stA') \<subseteq> key_of ` set (store stB) \<Longrightarrow>
         \<exists>stB'. import_loop f conn a ik cust script cur stB = Some (Completed, stB') \<and>
           store stB' = store stB \<and>
           newRecordsCount stB' = newRecordsCount stB \<and>
           existingRecordsCount stB' + length (allRecords stA) =
             existingRecordsCount stB + length (allRecords stA') \<and>
           length (allRecords stB') + length (allRecords stA) =
             length (allRecords stB) + length (allRecords stA')"
proof (induction script arbitrary: cur stA stB)
  case Nil
  then show ?case by simp
next
  case (Cons res rest)
  show ?case
  proof (cases res)
    case (Throws msg)
    with Cons.prems show ?thesis by simp
  next
    case (Output recs nxt)
    define pA where "pA = page_state f conn a ik cust recs cur stA"
    define pB where "pB = page_state f conn a ik cust recs cur stB"
    have covA: "key_of ` f ` set (records_of recs) \<subseteq> key_of ` set (store pA)"
      unfolding pA_def using f by (rule page_state_covers)
    have lenA: "length (allRecords pA) = length (allRecords stA) + length (records_of recs)"
      unfolding pA_def by (simp add: page_state_allRecords)
    have lenB: "length (allRecords pB) = length (allRecords stB) + length (records_of recs)"
      unfolding pB_def by (simp add: page_state_allRecords)
    have stepA: "import_loop f conn a ik cust (res # rest) cur stA =
        (if truthy nxt then import_loop f conn a ik cust rest nxt pA else Some (Completed, pA))"
      unfolding pA_def Output by (rule import_loop_Output)
    have stepB: "import_loop f conn a ik cust (res # rest) cur stB =
        (if truthy nxt then import_loop f conn a ik cust rest nxt pB else Some (Completed, pB))"
      unfolding pB_def Output by (rule import_loop_Output)
    have keysA: "key_of ` set (store pA) \<subseteq> key_of ` set (store stA')"
    proof (cases "truthy nxt")
      case True
      with Cons.prems(1) stepA have "import_loop f conn a ik cust rest nxt pA = Some (Completed, stA')"
        by simp
      then show ?thesis by (rule import_loop_keys_mono)
    next
      case False
      with Cons.prems(1) stepA have "stA' = pA" by simp
      then show ?thesis by simp
    qed
    from order_trans [OF covA keysA] Cons.prems(2)
    have "key_of ` f ` set (records_of recs) \<subseteq> key_of ` set (store stB)"
      by (rule order_trans)
    from page_state_existing [OF f this, of conn a ik cur]
    have pB1: "store pB = store stB" and pB2: "newRecordsCount pB = newRecordsCount stB"
      and pB3: "existingRecordsCount pB = existingRecordsCount stB + length (records_of recs)"
      unfolding pB_def by simp_all
    show ?thesis
    proof (cases "truthy nxt")
      case True
      with Cons.prems(1) stepA
      have runA: "import_loop f conn a ik cust rest nxt pA = Some (Completed, stA')" by simp
      from Cons.prems(2) pB1 have "key_of ` set (store stA') \<subseteq> key_of ` set (store pB)" by simp
      from Cons.IH [OF runA this] obtain stB' where
        r: "import_loop f conn a ik cust rest nxt pB = Some (Completed, stB')"
        and s: "store stB' = store pB" and n: "newRecordsCount stB' = newRecordsCount pB"
        and e: "existingRecordsCount stB' + length (allRecords pA) =
           existingRecordsCount pB + length (allRecords stA')"
        and l: "length (allRecords stB') + length (allRecords pA) =
           length (allRecords pB) + length (allRecords stA')"
        by blast
      have "import_loop f conn a ik cust (res # rest) cur stB = Some (Completed, stB')"
        using stepB True r by simp
      moreover have "store stB' = store stB" using s pB1 by simp
      moreover have "newRecordsCount stB' = newRecordsCount stB" using n pB2 by simp
      moreover have "existingRecordsCount stB' + length (allRecords stA) =
             existingRecordsCount stB + length (allRecords stA')"
        using e pB3 lenA by arith
      moreover have "length (allRecords stB') + length (allRecords stA) =
             length (allRecords stB) + length (allRecords stA')"
        using l lenA lenB by arith
      ultimately show ?thesis by blast
    next
      case False
      with Cons.prems(1) stepA have stA': "stA' = pA" by simp
      have "import_loop f conn a ik cust (res # rest) cur stB = Some (Completed, pB)"
        using stepB False by simp
      moreover have "existingRecordsCount pB + length (allRecords stA) =
             existingRecordsCount stB + length (allRecords stA')"
        using pB3 lenA stA' by arith
      moreover have "length (allRecords pB) + length (allRecords stA) =
             length (allRecords stB) + length (allRecords stA')"
        using lenA lenB stA' by arith
      ultimately show ?thesis using pB1 pB2 by blast
    qed
  qed
qed



subsection \<open>The handlers\<close>

lemma store_connect: "store (connect cust st) = store st"
  by (simp add: connect_def call_def)

lemma import_loop_stamped:
  assumes "import_loop f conn a ik cust script cur (connect cust (initial_state db)) = Some (c, st)"
    and "\<And>r. recordType (f r) = t"
  shows "\<exists>added. store st = db @ added \<and> (\<forall>r\<in>set added. recordType r = t)"
proof -
  from import_loop_added [OF assms(1)] obtain added where
    "store st = db @ added" "set added \<subseteq> range f"
    by (auto simp: connect_def call_def initial_state_def)
  with assms(2) show ?thesis by (intro exI [of _ added]) auto
qed

lemma run_again:
  assumes f: "\<And>r. customerId (f r) = Some cust"
    and run: "import_loop f conn a ik cust script None (connect cust (initial_state db)) =
                Some (Completed, st)"
  shows "\<exists>st'. import_loop f conn a ik cust script None (connect cust (initial_state (store st))) =
                Some (Completed, st') \<and> store st' = store st \<and> newRecordsCount st' = 0 \<and>
                existingRecordsCount st' = length (allRecords st) \<and>
                length (allRecords st') = length (allRecords st)"
proof -
  let ?B = "connect cust (initial_state (store st))"
  have "key_of ` set (store st) \<subseteq> key_of ` set (store ?B)"
    by (simp add: store_connect initial_state_def)
  from import_loop_again [OF f run this] obtain st' where
    "import_loop f conn a ik cust script None ?B = Some (Completed, st')"
    "store st' = store ?B" "newRecordsCount st' = newRecordsCount ?B"
    "existingRecordsCount st' + length (allRecords (connect cust (initial_state db))) =
       existingRecordsCount ?B + length (allRecords st)"
    "length (allRecords st') + length (allRecords (connect cust (initial_state db))) =
       length (allRecords ?B) + length (allRecords st)"
    by blast
  then show ?thesis
    by (intro exI [of _ st']) (simp add: connect_def call_def initial_state_def)
qed


lemma GET_part_000_cases:
  assumes "GET_part_000 req items script db = Some (resp, st)"
  obtains (early) msg code where "resp = Json (Error msg) code" "st = initial_state db"
  | (noconn) cust where "resp = Json (NoSuccess ''No connection found'') 200"
      "st = connect cust (initial_state db)"
  | (loop) cust a conn c where "auth_customerId req = Some cust" "cust \<noteq> []"
      "param_action req = Some a" "a \<noteq> []"
      "isCustomForm a \<longrightarrow> truthy (param_instanceKey req)"
      "firstConnection items = Some conn"
      "import_loop (recordsToSave_000 cust a (param_instanceKey req)) conn a
         (param_instanceKey req) cust script None (connect cust (initial_state db)) = Some (c, st)"
      "resp = (case c of
                 Thrown msg \<Rightarrow> Json (ErrorDetails ''Internal Server Error'' msg) 500
               | Completed \<Rightarrow> Json (Success (length (allRecords st)) (newRecordsCount st)
                                     (existingRecordsCount st)) 200)"
proof (cases "auth_customerId req")
  case None
  with assms have "resp = Json (Error ''Unauthorized'') 401" "st = initial_state db"
    by (auto simp: GET_part_000_def Let_def)
  then show ?thesis by (rule early)
next
  case cust: (Some cust)
  show ?thesis
  proof (cases "cust = []")
    case True
    with assms cust have "resp = Json (Error ''Unauthorized'') 401" "st = initial_state db"
      by (auto simp: GET_part_000_def Let_def)
    then show ?thesis by (rule early)
  next
    case ne: False
    show ?thesis
    proof (cases "param_action req")
      case None
      with assms cust ne
      have "resp = Json (Error ''Action key is required'') 400" "st = initial_state db"
        by (auto simp: GET_part_000_def Let_def)
      then show ?thesis by (rule early)
    next
      case a: (Some a)
      show ?thesis
      proof (cases "a = []")
        case True
        with assms cust ne a
        have "resp = Json (Error ''Action key is required'') 400" "st = initial_state db"
          by (auto simp: GET_part_000_def Let_def)
        then show ?thesis by (rule early)
      next
        case ane: False
        show ?thesis
        proof (cases "isCustomForm a \<and> \<not> truthy (param_instanceKey req)")
          case True
          with assms cust ne a ane
          have "resp = Json (Error ''Instance key is required for custom forms'') 400"
            "st = initial_state db"
            by (auto simp: GET_part_000_def Let_def)
          then show ?thesis by (rule early)
        next
          case ok: False
          show ?thesis
          proof (cases "firstConnection items")
            case None
            with assms cust ne a ane ok
            have "resp = Json (NoSuccess ''No connection found'') 200"
              "st = connect cust (initial_state db)"
              by (auto simp: GET_part_000_def Let_def)
            then show ?thesis by (rule noconn)
          next
            case conn: (Some conn)
            let ?run = "import_loop (recordsToSave_000 cust a (param_instanceKey req)) conn a
               (param_instanceKey req) cust script None (connect cust (initial_state db))"
            from assms cust ne a ane ok conn
            have g: "(case ?run of None \<Rightarrow> None
                      | Some (Thrown msg, st) \<Rightarrow>
                          Some (Json (ErrorDetails ''Internal Server Error'' msg) 500, st)
                      | Some (Completed, st) \<Rightarrow>
                          Some (Json (Success (length (allRecords st)) (newRecordsCount st)
                                  (existingRecordsCount st)) 200, st)) = Some (resp, st)"
              by (simp add: GET_part_000_def Let_def)
            then obtain c where c: "?run = Some (c, st)"
              by (cases ?run) (auto split: completion.splits)
            with g have "resp = (case c of
                 Thrown msg \<Rightarrow> Json (ErrorDetails ''Internal Server Error'' msg) 500
               | Completed \<Rightarrow> Json (Success (length (allRecords st)) (newRecordsCount st)
                                     (existingRecordsCount st)) 200)"
              by (cases c) auto
            with cust ne a ane ok conn c show ?thesis by (intro loop [of cust a conn c]) auto
          qed
        qed
      qed
    qed
  qed
qed

lemma GET_part_000_accepted:
  assumes "auth_customerId req = Some cust" "cust \<noteq> []" "param_action req = Some a" "a \<noteq> []"
    "isCustomForm a \<longrightarrow> truthy (param_instanceKey req)" "firstConnection items = Some conn"
  shows "GET_part_000 req items script db =
     (case import_loop (recordsToSave_000 cust a (param_instanceKey req)) conn a
             (param_instanceKey req) cust script None (connect cust (initial_state db)) of
        None \<Rightarrow> None
      | Some (Thrown msg, st) \<Rightarrow> Some (Json (ErrorDetails ''Internal Server Error'' msg) 500, st)
      | Some (Completed, st) \<Rightarrow>
          Some (Json (Success (length (allRecords st)) (newRecordsCount st)
                  (existingRecordsCount st)) 200, st))"
  using assms by (auto simp: GET_part_000_def Let_def)

lemma GET_part_000_outcomes:
  assumes "GET_part_000 req items script db = Some (resp, st)"
  obtains (unauthorized) "\<not> truthy (auth_customerId req)"
      "resp = Json (Error ''Unauthorized'') 401" "st = initial_state db"
  | (no_action) "\<not> truthy (param_action req)"
      "resp = Json (Error ''Action key is required'') 400" "st = initial_state db"
  | (no_instanceKey) a where "param_action req = Some a" "isCustomForm a"
      "\<not> truthy (param_instanceKey req)"
      "resp = Json (Error ''Instance key is required for custom forms'') 400"
      "st = initial_state db"
  | (no_connection) cust where "auth_customerId req = Some cust" "firstConnection items = None"
      "resp = Json (NoSuccess ''No connection found'') 200"
      "st = connect cust (initial_state db)"
  | (loop) cust a conn c where "auth_customerId req = Some cust" "cust \<noteq> []"
      "param_action req = Some a" "a \<noteq> []"
      "isCustomForm a \<longrightarrow> truthy (param_instanceKey req)"
      "firstConnection items = Some conn"
      "import_loop (recordsToSave_000 cust a (param_instanceKey req)) conn a
         (param_instanceKey req) cust script None (connect cust (initial_state db)) = Some (c, st)"
      "resp = (case c of
                 Thrown msg \<Rightarrow> Json (ErrorDetails ''Internal Server Error'' msg) 500
               | Completed \<Rightarrow> Json (Success (length (allRecords st)) (newRecordsCount st)
                                     (existingRecordsCount st)) 200)"
proof (cases "auth_customerId req")
  case None
  with assms have "resp = Json (Error ''Unauthorized'') 401" "st = initial_state db"
    by (auto simp: GET_part_000_def Let_def)
  with None show ?thesis by (intro unauthorized) (simp_all add: truthy_def)
next
  case cust: (Some cust)
  show ?thesis
  proof (cases "cust = []")
    case True
    with assms cust have "resp = Json (Error ''Unauthorized'') 401" "st = initial_state db"
      by (auto simp: GET_part_000_def Let_def)
    with cust True show ?thesis by (intro unauthorized) (simp_all add: truthy_def)
  next
    case ne: False
    show ?thesis
    proof (cases "param_action req")
      case None
      with assms cust ne
      have "resp = Json (Error ''Action key is required'') 400" "st = initial_state db"
        by (auto simp: GET_part_000_def Let_def)
      with None show ?thesis by (intro no_action) (simp_all add: truthy_def)
    next
      case a: (Some a)
      show ?thesis
      proof (cases "a = []")
        case True
        with assms cust ne a
        have "resp = Json (Error ''Action key is required'') 400" "st = initial_state db"
          by (auto simp: GET_part_000_def Let_def)
        with a True show ?thesis by (intro no_action) (simp_all add: truthy_def)
      next
        case ane: False
        show ?thesis
        proof (cases "isCustomForm a \<and> \<not> truthy (param_instanceKey req)")
          case True
          with assms cust ne a ane
          have "resp = Json (Error ''Instance key is required for custom forms'') 400"
            "st = initial_state db"
            by (auto simp: GET_part_000_def Let_def)
          with a True show ?thesis by (intro no_instanceKey [of a]) simp_all
        next
          case ok: False
          show ?thesis
          proof (cases "firstConnection items")
            case None
            with assms cust ne a ane ok
            have "resp = Json (NoSuccess ''No connection found'') 200"
              "st = connect cust (initial_state db)"
              by (auto simp: GET_part_000_def Let_def)
            with cust None show ?thesis by (intro no_connection [of cust]) simp_all
          next
            case conn: (Some conn)
            let ?run = "import_loop (recordsToSave_000 cust a (param_instanceKey req)) conn a
               (param_instanceKey req) cust script None (connect cust (initial_state db))"
            from ok have ok': "isCustomForm a \<longrightarrow> truthy (param_instanceKey req)" by blast
            from assms GET_part_000_accepted [OF cust ne a ane ok' conn, of script db]
            have g: "(case ?run of None \<Rightarrow> None
                      | Some (Thrown msg, st) \<Rightarrow>
                          Some (Json (ErrorDetails ''Internal Server Error'' msg) 500, st)
                      | Some (Completed, st) \<Rightarrow>
                          Some (Json (Success (length (allRecords st)) (newRecordsCount st)
                                  (existingRecordsCount st)) 200, st)) = Some (resp, st)"
              by simp
            then obtain c where c: "?run = Some (c, st)"
              by (cases ?run) (auto split: completion.splits)
            with g have "resp = (case c of
                 Thrown msg \<Rightarrow> Json (ErrorDetails ''Internal Server Error'' msg) 500
               | Completed \<Rightarrow> Json (Success (length (allRecords st)) (newRecordsCount st)
                                     (existingRecordsCount st)) 200)"
              by (cases c) auto
            with cust ne a ane ok conn c show ?thesis by (intro loop [of cust a conn c]) auto
          qed
        qed
      qed
    qed
  qed
qed

lemma GET_part_001_accepted:
  assumes "auth_customerId req = Some cust" "cust \<noteq> []" "param_action req = Some a" "a \<noteq> []"
    "a = ''get-objects'' \<longrightarrow> truthy (param_instanceKey req)" "firstConnection items = Some conn"
  shows "GET_part_001 req items script db =
     (case import_loop (recordsToSave_001 cust a (param_instanceKey req)) conn a
             (param_instanceKey req) cust script None (connect cust (initial_state db)) of
        None \<Rightarrow> None
      | Some (Thrown msg, st) \<Rightarrow> Some (Json (Error ''Internal Server Error'') 500, st)
      | Some (Completed, st) \<Rightarrow>
          Some (Json (Success (length (allRecords st)) (newRecordsCount st)
                  (existingRecordsCount st)) 200, st))"
  using assms by (auto simp: GET_part_001_def Let_def)

lemma GET_part_001_cases:
  assumes "GET_part_001 req items script db = Some (resp, st)"
  obtains (early) msg code where "resp = Json (Error msg) code" "st = initial_state db"
  | (noconn) cust where "resp = Json (NoSuccess ''No connection found'') 200"
      "st = connect cust (initial_state db)"
  | (loop) cust a conn c where "auth_customerId req = Some cust" "cust \<noteq> []"
      "param_action req = Some a" "a \<noteq> []"
      "a = ''get-objects'' \<longrightarrow> truthy (param_instanceKey req)"
      "firstConnection items = Some conn"
      "import_loop (recordsToSave_001 cust a (param_instanceKey req)) conn a
         (param_instanceKey req) cust script None (connect cust (initial_state db)) = Some (c, st)"
      "resp = (case c of
                 Thrown msg \<Rightarrow> Json (Error ''Internal Server Error'') 500
               | Completed \<Rightarrow> Json (Success (length (allRecords st)) (newRecordsCount st)
                                     (existingRecordsCount st)) 200)"
proof (cases "auth_customerId req")
  case None
  with assms have "resp = Json (Error ''Unauthorized'') 401" "st = initial_state db"
    by (auto simp: GET_part_001_def Let_def)
  then show ?thesis by (rule early)
next
  case cust: (Some cust)
  show ?thesis
  proof (cases "cust = []")
    case True
    with assms cust have "resp = Json (Error ''Unauthorized'') 401" "st = initial_state db"
      by (auto simp: GET_part_001_def Let_def)
    then show ?thesis by (rule early)
  next
    case ne: False
    show ?thesis
    proof (cases "param_action req")
      case None
      with assms cust ne
      have "resp = Json (Error ''Action key is required'') 400" "st = initial_state db"
        by (auto simp: GET_part_001_def Let_def)
      then show ?thesis by (rule early)
    next
      case a: (Some a)
      show ?thesis
      proof (cases "a = []")
        case True
        with assms cust ne a
        have "resp = Json (Error ''Action key is required'') 400" "st = initial_state db"
          by (auto simp: GET_part_001_def Let_def)
        then show ?thesis by (rule early)
      next
        case ane: False
        show ?thesis
        proof (cases "a = ''get-objects'' \<and> \<not> truthy (param_instanceKey req)")
          case True
          with assms cust ne a ane
          have "resp = Json (Error ''Instance key is required for get-objects action'') 400"
            "st = initial_state db"
            by (auto simp: GET_part_001_def Let_def)
          then show ?thesis by (rule early)
        next
          case ok: False
          show ?thesis
          proof (cases "firstConnection items")
            case None
            with assms cust ne a ane ok
            have "resp = Json (NoSuccess ''No connection found'') 200"
              "st = connect cust (initial_state db)"
              by (auto simp: GET_part_001_def Let_def)
            then show ?thesis by (rule noconn)
          next
            case conn: (Some conn)
            let ?run = "import_loop (recordsToSave_001 cust a (param_instanceKey req)) conn a
               (param_instanceKey req) cust script None (connect cust (initial_state db))"
            from ok have ok': "a = ''get-objects'' \<longrightarrow> truthy (param_instanceKey req)" by blast
            from assms GET_part_001_accepted [OF cust ne a ane ok' conn, of script db]
            have g: "(case ?run of None \<Rightarrow> None
                      | Some (Thrown msg, st) \<Rightarrow>
                          Some (Json (Error ''Internal Server Error'') 500, st)
                      | Some (Completed, st) \<Rightarrow>
                          Some (Json (Success (length (allRecords st)) (newRecordsCount st)
                                  (existingRecordsCount st)) 200, st)) = Some (resp, st)"
              by simp
            then obtain c where c: "?run = Some (c, st)"
              by (cases ?run) (auto split: completion.splits)
            with g have "resp = (case c of
                 Thrown msg \<Rightarrow> Json (Error ''Internal Server Error'') 500
               | Completed \<Rightarrow> Json (Success (length (allRecords st)) (newRecordsCount st)
                                     (existingRecordsCount st)) 200)"
              by (cases c) auto
            with cust ne a ane ok conn c show ?thesis by (intro loop [of cust a conn c]) auto
          qed
        qed
      qed
    qed
  qed
qed

lemma not_get_not_custom: "\<not> startsWith a ''get-'' \<Longrightarrow> \<not> isCustomForm a"
  by (simp add: isCustomForm_def formId_def)

lemma filter_runs_connect: "filter is_RunAction (trace (connect cust (initial_state db))) = []"
  by (simp add: connect_def call_def initial_state_def)


lemma id_field_recordsToSave_000: "id_field (recordsToSave_000 cust a ik r) = id_field r"
  by (simp add: recordsToSave_000_def)



lemma recordType_recordsToSave_000:
  "recordType (recordsToSave_000 cust a ik r) = (if isCustomForm a then ik else Some a)"
  by (simp add: recordsToSave_000_def)

lemma recordType_recordsToSave_001:
  "recordType (recordsToSave_001 cust a ik r) = (if a = ''get-objects'' then ik else Some a)"
  by (simp add: recordsToSave_001_def)

section \<open>The claims\<close>

text \<open>
  Claim C1. Repeated import is idempotent. When a run of the import handler (either route)
  returns a summary with \<open>recordsCount = n\<close>, a second run for the same request, against the
  same connections and a source that gives the same results again, starting from the store
  the first run left, returns the summary \<open>recordsCount = n\<close>, \<open>newRecordsCount = 0\<close>,
  \<open>existingRecordsCount = n\<close>, and leaves the store as it was.
\<close>

theorem repeated_import_idempotent:
  "(GET_part_000 req items script db = Some (Json (Success n new existing) code, st) \<longrightarrow>
      (\<exists>st'. GET_part_000 req items script (store st) = Some (Json (Success n 0 n) 200, st') \<and>
             store st' = store st)) \<and>
   (GET_part_001 req items script db = Some (Json (Success n new existing) code, st) \<longrightarrow>
      (\<exists>st'. GET_part_001 req items script (store st) = Some (Json (Success n 0 n) 200, st') \<and>
             store st' = store st))"
proof (intro conjI impI)
  assume "GET_part_000 req items script db = Some (Json (Success n new existing) code, st)"
  then show "\<exists>st'. GET_part_000 req items script (store st) = Some (Json (Success n 0 n) 200, st') \<and>
             store st' = store st"
  proof (cases rule: GET_part_000_cases)
    case (early msg code)
    then show ?thesis by simp
  next
    case (noconn cust)
    then show ?thesis by simp
  next
    case (loop cust a conn c)
    from loop(8) have c: "c = Completed" and n: "n = length (allRecords st)"
      by (cases c; simp)+
    have f: "\<And>r. customerId (recordsToSave_000 cust a (param_instanceKey req) r) = Some cust"
      by (simp add: recordsToSave_000_def)
    from run_again [OF f loop(7) [unfolded c]] obtain st' where
      "import_loop (recordsToSave_000 cust a (param_instanceKey req)) conn a
         (param_instanceKey req) cust script None (connect cust (initial_state (store st))) =
         Some (Completed, st')"
      "store st' = store st" "newRecordsCount st' = 0"
      "existingRecordsCount st' = length (allRecords st)"
      "length (allRecords st') = length (allRecords st)"
      by blast
    with n show ?thesis
      by (intro exI [of _ st'])
        (simp add: GET_part_000_accepted [OF loop(1) loop(2) loop(3) loop(4) loop(5) loop(6)])
  qed
next
  assume "GET_part_001 req items script db = Some (Json (Success n new existing) code, st)"
  then show "\<exists>st'. GET_part_001 req items script (store st) = Some (Json (Success n 0 n) 200, st') \<and>
             store st' = store st"
  proof (cases rule: GET_part_001_cases)
    case (early msg code)
    then show ?thesis by simp
  next
    case (noconn cust)
    then show ?thesis by simp
  next
    case (loop cust a conn c)
    from loop(8) have c: "c = Completed" and n: "n = length (allRecords st)"
      by (cases c; simp)+
    have f: "\<And>r. customerId (recordsToSave_001 cust a (param_instanceKey req) r) = Some cust"
      by (simp add: recordsToSave_001_def)
    from run_again [OF f loop(7) [unfolded c]] obtain st' where
      "import_loop (recordsToSave_001 cust a (param_instanceKey req)) conn a
         (param_instanceKey req) cust script None (connect cust (initial_state (store st))) =
         Some (Completed, st')"
      "store st' = store st" "newRecordsCount st' = 0"
      "existingRecordsCount st' = length (allRecords st)"
      "length (allRecords st') = length (allRecords st)"
      by blast
    with n show ?thesis
      by (intro exI [of _ st'])
        (simp add: GET_part_001_accepted [OF loop(1) loop(2) loop(3) loop(4) loop(5) loop(6)])
  qed
qed

theorem repeated_import_idempotent_witness:
  "(\<exists>st st'. GET_part_000 equipment_request (Some [''conn-1'']) equipment_pages [] =
        Some (Json (Success 3 3 0) 200, st) \<and>
      GET_part_000 equipment_request (Some [''conn-1'']) equipment_pages (store st) =
        Some (Json (Success 3 0 3) 200, st') \<and> store st' = store st) \<and>
   (\<exists>st st'. GET_part_001 equipment_request (Some [''conn-1'']) equipment_pages [] =
        Some (Json (Success 3 3 0) 200, st) \<and>
      GET_part_001 equipment_request (Some [''conn-1'']) equipment_pages (store st) =
        Some (Json (Success 3 0 3) 200, st') \<and> store st' = store st)"
proof -
  obtain s0 where r0: "GET_part_000 equipment_request (Some [''conn-1'']) equipment_pages [] =
      Some (Json (Success 3 3 0) 200, s0)"
    using equipment_first_run by blast
  obtain s1 where r1: "GET_part_001 equipment_request (Some [''conn-1'']) equipment_pages [] =
      Some (Json (Success 3 3 0) 200, s1)"
    by (simp add: eval_defs)
  from r0 repeated_import_idempotent
    [where req = equipment_request and items = "Some [''conn-1'']" and script = equipment_pages
       and db = "[]" and n = 3 and new = 3 and existing = 0 and code = 200 and st = s0]
  have "\<exists>st'. GET_part_000 equipment_request (Some [''conn-1'']) equipment_pages (store s0) =
      Some (Json (Success 3 0 3) 200, st') \<and> store st' = store s0"
    by blast
  moreover from r1 repeated_import_idempotent
    [where req = equipment_request and items = "Some [''conn-1'']" and script = equipment_pages
       and db = "[]" and n = 3 and new = 3 and existing = 0 and code = 200 and st = s1]
  have "\<exists>st'. GET_part_001 equipment_request (Some [''conn-1'']) equipment_pages (store s1) =
      Some (Json (Success 3 0 3) 200, st') \<and> store st' = store s1"
    by blast
  ultimately show ?thesis using r0 r1 by blast
qed

text \<open>
  Claim C2. Key uniqueness is preserved: when the triple (\<open>id\<close>, \<open>customerId\<close>,
  \<open>recordType\<close>) is unique across the stored records before a run of the import handler,
  it is unique across the stored records after the run, whatever the pages, the request and
  the outcome of the run (a summary, a refusal, or an internal error after some pages).
\<close>

theorem key_uniqueness_preserved:
  assumes "distinct (map key_of db)"
    and "GET_part_000 req items script db = Some (resp, st)"
  shows "distinct (map key_of (store st))"
  using assms(2)
proof (cases rule: GET_part_000_cases)
  case (early msg code)
  with assms(1) show ?thesis by (simp add: initial_state_def)
next
  case (noconn cust)
  with assms(1) show ?thesis by (simp add: store_connect initial_state_def)
next
  case (loop cust a conn c)
  have f: "\<And>r. customerId (recordsToSave_000 cust a (param_instanceKey req) r) = Some cust"
    by (simp add: recordsToSave_000_def)
  from assms(1) have "distinct (map key_of (store (connect cust (initial_state db))))"
    by (simp add: store_connect initial_state_def)
  from import_loop_distinct [OF f loop(7) this] show ?thesis .
qed

theorem key_uniqueness_preserved_witness:
  "distinct (map key_of equipment_store) \<and>
   (\<exists>resp st. GET_part_000 equipment_request (Some [''conn-1'']) equipment_pages equipment_store =
        Some (resp, st) \<and> distinct (map key_of (store st)))"
proof -
  have d: "distinct (map key_of equipment_store)"
    by (simp add: equipment_store_def stored_record_def key_of_def)
  obtain resp st where run:
    "GET_part_000 equipment_request (Some [''conn-1'']) equipment_pages equipment_store =
       Some (resp, st)"
    by (simp add: eval_defs)
  from key_uniqueness_preserved [OF d run] d run show ?thesis by blast
qed

text \<open>
  Claim C3, amended. \<open>recordType\<close> stamping: every record a run of the import handler inserts
  carries as its \<open>recordType\<close> the instance key when the handler classifies the action as
  custom, and the action key itself, with its prefix, when it does not: \<open>get-equipment\<close> for
  the action \<open>get-equipment\<close>, not the default type name \<open>equipment\<close>. The route of
  \<open>part_000\<close> classifies by \<open>isCustomForm\<close>, the route of \<open>part_001\<close> by the literal key
  \<open>get-objects\<close>.
\<close>

theorem recordType_stamped:
  "(GET_part_000 req items script db = Some (resp, st) \<and> param_action req = Some a \<longrightarrow>
      (\<exists>added. store st = db @ added \<and>
         (\<forall>r\<in>set added.
            recordType r = (if isCustomForm a then param_instanceKey req else Some a)))) \<and>
   (GET_part_001 req items script db = Some (resp, st) \<and> param_action req = Some a \<longrightarrow>
      (\<exists>added. store st = db @ added \<and>
         (\<forall>r\<in>set added.
            recordType r = (if a = ''get-objects'' then param_instanceKey req else Some a))))"
proof (intro conjI impI; elim conjE)
  assume run: "GET_part_000 req items script db = Some (resp, st)" and a: "param_action req = Some a"
  have quiet: "st = initial_state db \<or> (\<exists>cust. st = connect cust (initial_state db)) \<Longrightarrow>
    \<exists>added. store st = db @ added \<and>
       (\<forall>r\<in>set added. recordType r = (if isCustomForm a then param_instanceKey req else Some a))"
    by (intro exI [of _ "[]"]) (auto simp: initial_state_def connect_def call_def)
  from run show "\<exists>added. store st = db @ added \<and>
       (\<forall>r\<in>set added. recordType r = (if isCustomForm a then param_instanceKey req else Some a))"
  proof (cases rule: GET_part_000_outcomes)
    case unauthorized
    then show ?thesis using quiet by simp
  next
    case no_action
    then show ?thesis using quiet by simp
  next
    case (no_instanceKey a')
    then show ?thesis using quiet by simp
  next
    case (no_connection cust)
    then show ?thesis using quiet by blast
  next
    case (loop cust a' conn c)
    with a have "import_loop (recordsToSave_000 cust a (param_instanceKey req)) conn a
        (param_instanceKey req) cust script None (connect cust (initial_state db)) = Some (c, st)"
      by simp
    then show ?thesis by (rule import_loop_stamped) (rule recordType_recordsToSave_000)
  qed
next
  assume run: "GET_part_001 req items script db = Some (resp, st)" and a: "param_action req = Some a"
  have quiet: "st = initial_state db \<or> (\<exists>cust. st = connect cust (initial_state db)) \<Longrightarrow>
    \<exists>added. store st = db @ added \<and>
       (\<forall>r\<in>set added.
          recordType r = (if a = ''get-objects'' then param_instanceKey req else Some a))"
    by (intro exI [of _ "[]"]) (auto simp: initial_state_def connect_def call_def)
  from run show "\<exists>added. store st = db @ added \<and>
       (\<forall>r\<in>set added.
          recordType r = (if a = ''get-objects'' then param_instanceKey req else Some a))"
  proof (cases rule: GET_part_001_cases)
    case (early msg code)
    then show ?thesis using quiet by simp
  next
    case (noconn cust)
    then show ?thesis using quiet by blast
  next
    case (loop cust a' conn c)
    with a have "import_loop (recordsToSave_001 cust a (param_instanceKey req)) conn a
        (param_instanceKey req) cust script None (connect cust (initial_state db)) = Some (c, st)"
      by simp
    then show ?thesis by (rule import_loop_stamped) (rule recordType_recordsToSave_001)
  qed
qed

theorem recordType_stamped_witness:
  "(\<exists>resp st. GET_part_000 equipment_request (Some [''conn-1'']) equipment_pages [] =
        Some (resp, st) \<and>
      recordType ` set (store st) \<subseteq> {Some ''get-equipment''}) \<and>
   (\<exists>resp st. GET_part_001 objects_request (Some [''conn-1'']) equipment_pages [] =
        Some (resp, st) \<and>
      recordType ` set (store st) \<subseteq> {Some ''widgets''})"
proof -
  obtain r0 s0 where run0:
    "GET_part_000 equipment_request (Some [''conn-1'']) equipment_pages [] = Some (r0, s0)"
    by (simp add: eval_defs)
  obtain r1 s1 where run1:
    "GET_part_001 objects_request (Some [''conn-1'']) equipment_pages [] = Some (r1, s1)"
    by (simp add: eval_defs)
  have a0: "param_action equipment_request = Some ''get-equipment''"
    and a1: "param_action objects_request = Some ''get-objects''"
    and k1: "param_instanceKey objects_request = Some ''widgets''"
    and c0: "\<not> isCustomForm ''get-equipment''"
    by (simp_all add: eval_defs)
  from run0 a0 recordType_stamped
    [where req = equipment_request and items = "Some [''conn-1'']" and script = equipment_pages
       and db = "[]" and resp = r0 and st = s0 and a = "''get-equipment''"]
  obtain added0 where "store s0 = [] @ added0"
    "\<forall>r\<in>set added0. recordType r =
       (if isCustomForm ''get-equipment'' then param_instanceKey equipment_request
        else Some ''get-equipment'')"
    by blast
  with c0 have t0: "recordType ` set (store s0) \<subseteq> {Some ''get-equipment''}" by auto
  from run1 a1 recordType_stamped
    [where req = objects_request and items = "Some [''conn-1'']" and script = equipment_pages
       and db = "[]" and resp = r1 and st = s1 and a = "''get-objects''"]
  obtain added1 where "store s1 = [] @ added1"
    "\<forall>r\<in>set added1. recordType r =
       (if ''get-objects'' = ''get-objects'' then param_instanceKey objects_request
        else Some ''get-objects'')"
    by blast
  with k1 have t1: "recordType ` set (store s1) \<subseteq> {Some ''widgets''}" by auto
  from run0 t0 run1 t1 show ?thesis by blast
qed

theorem recordType_stamped_counterexample:
  "\<not> isCustomForm ''get-equipment'' \<and> formId ''get-equipment'' = Some ''equipment'' \<and>
   GET_part_000 equipment_request (Some [''conn-1''])
     [Output (Some [raw_record ''e1'' (Some ''Pump'')]) None] [] =
     Some (Json (Success 1 1 0) 200,
       \<lparr>store = [stored_record ''e1'' ''Pump'' ''acme'' ''get-equipment''],
        trace = [ConnectToDatabase, GetIntegrationClient ''acme'', ConnectionsFind,
                 RunAction ''conn-1'' ''get-equipment'' None None,
                 FindOne (Some ''e1'', Some ''acme'', Some ''get-equipment''),
                 Create (stored_record ''e1'' ''Pump'' ''acme'' ''get-equipment'')],
        allRecords = [raw_record ''e1'' (Some ''Pump'')],
        newRecordsCount = 1, existingRecordsCount = 0\<rparr>) \<and>
   recordType (stored_record ''e1'' ''Pump'' ''acme'' ''get-equipment'') \<noteq> Some ''equipment''"
  by (simp add: eval_defs)

text \<open>
  Claim C4. Pagination is driven only by the cursor. For an accepted request with a
  connection, when the successive calls of the external action return the non-empty cursors
  \<open>c1\<close>, \<open>c2\<close>, \<open>c3\<close> and then an empty, null or undefined cursor, the handler makes exactly
  four external action calls, the first with no cursor and each further one with the cursor
  the call before returned, and answers with \<open>recordsCount\<close> the sum of the four page
  sizes. The pages are arbitrary: a page without records and with a non-empty cursor does
  not end the loop.
\<close>

theorem pagination_driven_by_cursor:
  assumes "auth_customerId req = Some cust" "cust \<noteq> []"
    and "param_action req = Some a" "a \<noteq> []"
    and "isCustomForm a \<longrightarrow> truthy (param_instanceKey req)"
    and "firstConnection items = Some conn"
    and "truthy c1" "truthy c2" "truthy c3" "\<not> truthy c4"
  shows "\<exists>new existing st.
           GET_part_000 req items
             (Output p1 c1 # Output p2 c2 # Output p3 c3 # Output p4 c4 # rest) db =
             Some (Json (Success (length (records_of p1) + length (records_of p2) +
                                  length (records_of p3) + length (records_of p4))
                           new existing) 200, st) \<and>
           filter is_RunAction (trace st) =
             [RunAction conn a (js_or (param_instanceKey req) None) None,
              RunAction conn a (js_or (param_instanceKey req) None) c1,
              RunAction conn a (js_or (param_instanceKey req) None) c2,
              RunAction conn a (js_or (param_instanceKey req) None) c3]"
  using assms(7-10)
  by (simp add: GET_part_000_accepted [OF assms(1-6)] import_loop_Output page_state_allRecords
        page_state_runs filter_runs_connect connect_def call_def initial_state_def
      del: import_loop.simps)

theorem pagination_driven_by_cursor_witness:
  "\<exists>new existing st.
     GET_part_000 equipment_request (Some [''conn-1''])
       [Output (Some [raw_record ''e1'' (Some ''Pump''), raw_record ''e2'' None]) (Some ''c1''),
        Output (Some []) (Some ''c2''),
        Output None (Some ''c3''),
        Output (Some [raw_record ''e3'' (Some ''Valve'')]) None] [] =
       Some (Json (Success 3 new existing) 200, st) \<and>
     filter is_RunAction (trace st) =
       [RunAction ''conn-1'' ''get-equipment'' None None,
        RunAction ''conn-1'' ''get-equipment'' None (Some ''c1''),
        RunAction ''conn-1'' ''get-equipment'' None (Some ''c2''),
        RunAction ''conn-1'' ''get-equipment'' None (Some ''c3'')]"
proof -
  have h: "auth_customerId equipment_request = Some ''acme''" "''acme'' \<noteq> []"
    "param_action equipment_request = Some ''get-equipment''" "''get-equipment'' \<noteq> []"
    "isCustomForm ''get-equipment'' \<longrightarrow> truthy (param_instanceKey equipment_request)"
    "firstConnection (Some [''conn-1'']) = Some ''conn-1''"
    "truthy (Some ''c1'')" "truthy (Some ''c2'')" "truthy (Some ''c3'')" "\<not> truthy None"
    by (simp_all add: eval_defs)
  from pagination_driven_by_cursor
    [OF h, where ?p1.0 = "Some [raw_record ''e1'' (Some ''Pump''), raw_record ''e2'' None]"
       and ?p2.0 = "Some []" and ?p3.0 = None
       and ?p4.0 = "Some [raw_record ''e3'' (Some ''Valve'')]" and rest = "[]" and db = "[]"]
  show ?thesis
    by (simp add: records_of_def js_or_def truthy_def equipment_request_def numeral_3_eq_3)
qed

text \<open>
  Claim C5, amended. Missing instance key on a custom action: for every authenticated
  request whose action key the handler classifies as custom (\<open>isCustomForm\<close> in the route of
  \<open>part_000\<close>, the key \<open>get-objects\<close> in the route of \<open>part_001\<close>) and whose instance key is
  missing or empty, the handler answers with status 400 and the error about the instance
  key. When the request is not authenticated the handler answers with status 401 and
  \<open>Unauthorized\<close> instead, since it checks the tenant first. In both cases it makes no call
  at all on its collaborators, and the store is as before.
\<close>

theorem missing_instance_key_rejected:
  assumes "param_action req = Some a" and "\<not> truthy (param_instanceKey req)"
  shows "(isCustomForm a \<and> truthy (auth_customerId req) \<longrightarrow>
            GET_part_000 req items script db =
              Some (Json (Error ''Instance key is required for custom forms'') 400,
                    initial_state db)) \<and>
         (a = ''get-objects'' \<and> truthy (auth_customerId req) \<longrightarrow>
            GET_part_001 req items script db =
              Some (Json (Error ''Instance key is required for get-objects action'') 400,
                    initial_state db)) \<and>
         (\<not> truthy (auth_customerId req) \<longrightarrow>
            GET_part_000 req items script db =
              Some (Json (Error ''Unauthorized'') 401, initial_state db) \<and>
            GET_part_001 req items script db =
              Some (Json (Error ''Unauthorized'') 401, initial_state db)) \<and>
         trace (initial_state db) = [] \<and> store (initial_state db) = db"
proof (intro conjI impI)
  assume "isCustomForm a \<and> truthy (auth_customerId req)"
  moreover from this have "a \<noteq> []" by (auto simp: isCustomForm_def formId_def startsWith_def)
  ultimately show "GET_part_000 req items script db =
      Some (Json (Error ''Instance key is required for custom forms'') 400, initial_state db)"
    using assms by (auto simp: GET_part_000_def Let_def truthy_def split: option.splits)
next
  assume "a = ''get-objects'' \<and> truthy (auth_customerId req)"
  then show "GET_part_001 req items script db =
      Some (Json (Error ''Instance key is required for get-objects action'') 400, initial_state db)"
    using assms by (auto simp: GET_part_001_def Let_def truthy_def split: option.splits)
next
  assume "\<not> truthy (auth_customerId req)"
  then show "GET_part_000 req items script db =
      Some (Json (Error ''Unauthorized'') 401, initial_state db)"
    by (auto simp: GET_part_000_def Let_def truthy_def split: option.splits)
next
  assume "\<not> truthy (auth_customerId req)"
  then show "GET_part_001 req items script db =
      Some (Json (Error ''Unauthorized'') 401, initial_state db)"
    by (auto simp: GET_part_001_def Let_def truthy_def split: option.splits)
qed (simp_all add: initial_state_def)

theorem missing_instance_key_rejected_witness:
  "GET_part_000 \<lparr>auth_customerId = Some ''acme'', param_action = Some ''get-objects'',
       param_instanceKey = None\<rparr> (Some [''conn-1'']) equipment_pages equipment_store =
     Some (Json (Error ''Instance key is required for custom forms'') 400,
           initial_state equipment_store) \<and>
   GET_part_001 \<lparr>auth_customerId = Some ''acme'', param_action = Some ''get-objects'',
       param_instanceKey = None\<rparr> (Some [''conn-1'']) equipment_pages equipment_store =
     Some (Json (Error ''Instance key is required for get-objects action'') 400,
           initial_state equipment_store) \<and>
   GET_part_000 \<lparr>auth_customerId = Some [], param_action = Some ''get-objects'',
       param_instanceKey = Some []\<rparr> (Some [''conn-1'']) equipment_pages equipment_store =
     Some (Json (Error ''Unauthorized'') 401, initial_state equipment_store) \<and>
   trace (initial_state equipment_store) = [] \<and>
   store (initial_state equipment_store) = equipment_store"
proof -
  have c: "isCustomForm ''get-objects''" by (simp add: eval_defs)
  from c missing_instance_key_rejected
    [where req = "\<lparr>auth_customerId = Some ''acme'', param_action = Some ''get-objects'',
        param_instanceKey = None\<rparr>" and a = "''get-objects''" and items = "Some [''conn-1'']"
       and script = equipment_pages and db = equipment_store]
  have 1: "GET_part_000 \<lparr>auth_customerId = Some ''acme'', param_action = Some ''get-objects'',
       param_instanceKey = None\<rparr> (Some [''conn-1'']) equipment_pages equipment_store =
     Some (Json (Error ''Instance key is required for custom forms'') 400,
           initial_state equipment_store)"
    and 2: "GET_part_001 \<lparr>auth_customerId = Some ''acme'', param_action = Some ''get-objects'',
       param_instanceKey = None\<rparr> (Some [''conn-1'']) equipment_pages equipment_store =
     Some (Json (Error ''Instance key is required for get-objects action'') 400,
           initial_state equipment_store)"
    and 4: "trace (initial_state equipment_store) = []"
    and 5: "store (initial_state equipment_store) = equipment_store"
    by (simp_all add: truthy_def)
  from missing_instance_key_rejected
    [where req = "\<lparr>auth_customerId = Some [], param_action = Some ''get-objects'',
        param_instanceKey = Some []\<rparr>" and a = "''get-objects''" and items = "Some [''conn-1'']"
       and script = equipment_pages and db = equipment_store]
  have 3: "GET_part_000 \<lparr>auth_customerId = Some [], param_action = Some ''get-objects'',
       param_instanceKey = Some []\<rparr> (Some [''conn-1'']) equipment_pages equipment_store =
     Some (Json (Error ''Unauthorized'') 401, initial_state equipment_store)"
    by (simp add: truthy_def)
  from 1 2 3 4 5 show ?thesis by blast
qed

theorem missing_instance_key_counterexample:
  "isCustomForm ''get-widgets'' \<and>
   GET_part_000 \<lparr>auth_customerId = None, param_action = Some ''get-widgets'',
       param_instanceKey = None\<rparr> (Some [''conn-1'']) [] [] =
     Some (Json (Error ''Unauthorized'') 401, initial_state [])"
  by (simp add: eval_defs)

text \<open>
  Claim C6. No-connection soft failure: for every authenticated request with an action key
  and, when the action is custom, an instance key, if the connection directory lists no
  connection (an empty or undefined list), the handler answers
  \<open>{success: false, error: "No connection found"}\<close> with status 200. It has connected to the
  database, built the client and listed the connections, and made no other call: no
  external action call, no lookup and no insertion; the store is as before.
\<close>

theorem no_connection_soft_failure:
  assumes "auth_customerId req = Some cust" "cust \<noteq> []"
    and "param_action req = Some a" "a \<noteq> []"
    and "isCustomForm a \<longrightarrow> truthy (param_instanceKey req)"
    and "firstConnection items = None"
  shows "\<exists>st. GET_part_000 req items script db =
              Some (Json (NoSuccess ''No connection found'') 200, st) \<and>
              store st = db \<and>
              trace st = [ConnectToDatabase, GetIntegrationClient cust, ConnectionsFind]"
  using assms by (auto simp: GET_part_000_def Let_def connect_def call_def initial_state_def)

theorem no_connection_soft_failure_witness:
  "\<exists>st. GET_part_000 equipment_request (Some []) equipment_pages equipment_store =
          Some (Json (NoSuccess ''No connection found'') 200, st) \<and>
        store st = equipment_store \<and>
        trace st = [ConnectToDatabase, GetIntegrationClient ''acme'', ConnectionsFind]"
proof -
  have h: "auth_customerId equipment_request = Some ''acme''" "''acme'' \<noteq> []"
    "param_action equipment_request = Some ''get-equipment''" "''get-equipment'' \<noteq> []"
    "isCustomForm ''get-equipment'' \<longrightarrow> truthy (param_instanceKey equipment_request)"
    "firstConnection (Some []) = None"
    by (simp_all add: eval_defs)
  from no_connection_soft_failure [OF h] show ?thesis .
qed




text \<open>
  Claim C8. Insert-only frame condition: the store after a run of the import handler is the
  store before the run followed by the records the run inserted; every record present
  before the run is still there, unchanged and at its place. The handler never updates or
  deletes a stored record.
\<close>

theorem insert_only_frame:
  assumes "GET_part_000 req items script db = Some (resp, st)"
  shows "prefix db (store st)"
  using assms
proof (cases rule: GET_part_000_cases)
  case (early msg code)
  then show ?thesis by (simp add: initial_state_def)
next
  case (noconn cust)
  then show ?thesis by (simp add: store_connect initial_state_def)
next
  case (loop cust a conn c)
  from import_loop_added [OF loop(7)] show ?thesis
    by (auto simp: store_connect initial_state_def prefix_def)
qed

theorem insert_only_frame_witness:
  "\<exists>resp st. GET_part_000 equipment_request (Some [''conn-1'']) equipment_pages
        [stored_record ''e2'' ''Old name'' ''acme'' ''get-equipment''] = Some (resp, st) \<and>
     prefix [stored_record ''e2'' ''Old name'' ''acme'' ''get-equipment''] (store st)"
proof -
  obtain resp st where run:
    "GET_part_000 equipment_request (Some [''conn-1'']) equipment_pages
       [stored_record ''e2'' ''Old name'' ''acme'' ''get-equipment''] = Some (resp, st)"
    by (simp add: eval_defs)
  from insert_only_frame [OF run] run show ?thesis by blast
qed

text \<open>
  Claim C9. Summary counters are consistent: in every successful response of the import
  handler, \<open>recordsCount = newRecordsCount + existingRecordsCount\<close>.
\<close>

theorem summary_counters_consistent:
  assumes "GET_part_000 req items script db = Some (Json (Success n new existing) status, st)"
  shows "n = new + existing"
  using assms
proof (cases rule: GET_part_000_cases)
  case (early msg code)
  then show ?thesis by simp
next
  case (noconn cust)
  then show ?thesis by simp
next
  case (loop cust a conn c)
  from loop(8) have c: "c = Completed" and n: "n = length (allRecords st)"
    "new = newRecordsCount st" "existing = existingRecordsCount st"
    by (cases c; simp)+
  let ?st0 = "connect cust (initial_state db)"
  have "length (allRecords ?st0) = newRecordsCount ?st0 + existingRecordsCount ?st0"
    by (simp add: connect_def call_def initial_state_def)
  from import_loop_counted [OF loop(7) [unfolded c] this] n show ?thesis by simp
qed

theorem summary_counters_consistent_witness:
  "\<exists>st. GET_part_000 equipment_request (Some [''conn-1'']) equipment_pages [] =
          Some (Json (Success 3 3 0) 200, st) \<and> (3::nat) = 3 + 0"
proof -
  obtain st where run:
    "GET_part_000 equipment_request (Some [''conn-1'']) equipment_pages [] =
       Some (Json (Success 3 3 0) 200, st)"
    using equipment_first_run by blast
  from summary_counters_consistent [OF run] run show ?thesis by blast
qed

text \<open>
  Claim C10. An action key that does not start with \<open>get-\<close> is classified as not custom:
  whatever the instance key, the handler never answers with the error about a missing
  instance key, and every record a run inserts carries the action key itself as its
  \<open>recordType\<close>.
\<close>

theorem non_get_action_not_custom:
  assumes "\<not> startsWith a ''get-''" and "param_action req = Some a"
    and "GET_part_000 req items script db = Some (resp, st)"
  shows "\<not> isCustomForm a \<and>
         resp \<noteq> Json (Error ''Instance key is required for custom forms'') 400 \<and>
         (\<exists>added. store st = db @ added \<and> (\<forall>r\<in>set added. recordType r = Some a))"
proof -
  from assms(1) have nc: "\<not> isCustomForm a" by (rule not_get_not_custom)
  have quiet: "st = initial_state db \<or> (\<exists>cust. st = connect cust (initial_state db)) \<Longrightarrow>
    \<exists>added. store st = db @ added \<and> (\<forall>r\<in>set added. recordType r = Some a)"
    by (intro exI [of _ "[]"]) (auto simp: initial_state_def connect_def call_def)
  from assms(3)
  have "resp \<noteq> Json (Error ''Instance key is required for custom forms'') 400 \<and>
         (\<exists>added. store st = db @ added \<and> (\<forall>r\<in>set added. recordType r = Some a))"
  proof (cases rule: GET_part_000_outcomes)
    case unauthorized
    then show ?thesis using quiet by simp
  next
    case no_action
    then show ?thesis using quiet by simp
  next
    case (no_instanceKey a')
    with assms(2) nc show ?thesis by simp
  next
    case (no_connection cust)
    then show ?thesis using quiet by auto
  next
    case (loop cust a' conn c)
    with assms(2) have run: "import_loop (recordsToSave_000 cust a (param_instanceKey req)) conn a
        (param_instanceKey req) cust script None (connect cust (initial_state db)) = Some (c, st)"
      by simp
    have "\<And>r. recordType (recordsToSave_000 cust a (param_instanceKey req) r) = Some a"
      using nc by (simp add: recordType_recordsToSave_000)
    with run have "\<exists>added. store st = db @ added \<and> (\<forall>r\<in>set added. recordType r = Some a)"
      by (rule import_loop_stamped)
    moreover from loop(8)
    have "resp \<noteq> Json (Error ''Instance key is required for custom forms'') 400"
      by (cases c) simp_all
    ultimately show ?thesis by simp
  qed
  with nc show ?thesis by simp
qed

theorem non_get_action_not_custom_witness:
  "\<exists>resp st.
     GET_part_000 \<lparr>auth_customerId = Some ''acme'', param_action = Some ''list-equipment'',
         param_instanceKey = None\<rparr> (Some [''conn-1'']) equipment_pages [] = Some (resp, st) \<and>
     resp \<noteq> Json (Error ''Instance key is required for custom forms'') 400 \<and>
     recordType ` set (store st) \<subseteq> {Some ''list-equipment''}"
proof -
  obtain r0 s0 where run0:
    "GET_part_000 \<lparr>auth_customerId = Some ''acme'', param_action = Some ''list-equipment'',
         param_instanceKey = None\<rparr> (Some [''conn-1'']) equipment_pages [] = Some (r0, s0)"
    by (simp add: eval_defs)
  have h: "\<not> startsWith ''list-equipment'' ''get-''"
    "param_action \<lparr>auth_customerId = Some ''acme'', param_action = Some ''list-equipment'',
         param_instanceKey = None\<rparr> = Some ''list-equipment''"
    by (simp_all add: eval_defs)
  from non_get_action_not_custom [OF h run0] obtain added where
    "r0 \<noteq> Json (Error ''Instance key is required for custom forms'') 400"
    "store s0 = [] @ added" "\<forall>r\<in>set added. recordType r = Some ''list-equipment''"
    by blast
  then have "r0 \<noteq> Json (Error ''Instance key is required for custom forms'') 400 \<and>
     recordType ` set (store s0) \<subseteq> {Some ''list-equipment''}" by auto
  with run0 show ?thesis by blast
qed

end
